theory Spec2Isabelle
  imports Main "HOL-Library.AList"
begin

section \<open>The object cache of pulpcore/download/context.py\<close>

text \<open>
  The module targets Python 3 (pulpcore). Three facts of the language runtime shape the
  model.
  \<^item> A \<^verbatim>\<open>dict\<close> has unique keys and is iterated in insertion order: it is an
    association list whose keys are distinct. \<^verbatim>\<open>d[k] = v\<close> replaces the value of a
    present key in place and appends an absent one (\<open>AList.update\<close>),
    \<^verbatim>\<open>d.pop(k)\<close> removes the entry or raises \<^verbatim>\<open>KeyError\<close>.
  \<^item> \<^verbatim>\<open>d.items()\<close> is a view of the live dictionary, not a copy. Its iterator
    remembers the size the dictionary had when the iteration began and compares it with
    the current size at every step, the step that would end the loop included; when
    they differ the step raises
    \<^verbatim>\<open>RuntimeError: dictionary changed size during iteration\<close>.
  \<^item> Exceptions are values: \<^verbatim>\<open>KeyError\<close> is a subclass of
    \<^verbatim>\<open>LookupError\<close>.
  Timestamps (\<^verbatim>\<open>datetime\<close>) and durations (\<^verbatim>\<open>timedelta\<close>) are integers,
  counted in microseconds. The clock (\<^verbatim>\<open>datetime.utcnow()\<close>) and the interpreter's
  reference counts (\<^verbatim>\<open>sys.getrefcount\<close>) are inputs of the operations that read
  them. The cache's \<^verbatim>\<open>RLock\<close> is reentrant and every method takes and releases it
  through \<^verbatim>\<open>with\<close>; one thread of execution is modelled, for which it changes
  nothing, so the lock is not part of the cache's state.
\<close>

datatype error = KeyError | LookupError | RuntimeError | AttributeError | TypeError

text \<open>\<^verbatim>\<open>isinstance(e, LookupError)\<close> for the exceptions above.\<close>

fun is_LookupError :: "error \<Rightarrow> bool" where
  "is_LookupError KeyError = True"
| "is_LookupError LookupError = True"
| "is_LookupError _ = False"

subsection \<open>Item\<close>

text \<open>
  \<^verbatim>\<open>Item.__init__\<close> sets \<^verbatim>\<open>last_requested = None\<close>, stores the object and calls
  \<^verbatim>\<open>touch()\<close>, so a constructed item carries the time of its construction.
\<close>

record 'o item =
  last_requested :: int
  object :: 'o

definition touch :: "int \<Rightarrow> 'o item \<Rightarrow> 'o item" where
  "touch now it = it\<lparr>last_requested := now\<rparr>"

definition Item_init :: "'o \<Rightarrow> int \<Rightarrow> 'o item" where
  "Item_init obj now = \<lparr>last_requested = now, object = obj\<rparr>"

text \<open>
  \<^verbatim>\<open>ref_count\<close> is \<^verbatim>\<open>sys.getrefcount(self.object) - 2\<close>; \<^verbatim>\<open>busy\<close> is
  \<^verbatim>\<open>self.ref_count > 0\<close>. The first argument is the interpreter's count for each
  object at the moment of the call.
\<close>

definition ref_count :: "('o \<Rightarrow> int) \<Rightarrow> 'o item \<Rightarrow> int" where
  "ref_count getrefcount it = getrefcount (object it) - 2"

definition busy :: "('o \<Rightarrow> int) \<Rightarrow> 'o item \<Rightarrow> bool" where
  "busy getrefcount it \<longleftrightarrow> ref_count getrefcount it > 0"

subsection \<open>Cache\<close>

record ('k, 'o) cache =
  eviction_threshold :: int
  inventory :: "('k \<times> 'o item) list"

text \<open>A value handed back to a caller is the cached object or the \<^verbatim>\<open>Item\<close> around it.\<close>

datatype 'o pyvalue = Obj 'o | ItemRef "'o item"

text \<open>
  \<^verbatim>\<open>eviction_threshold or timedelta(hours=4)\<close>: the default replaces \<^verbatim>\<open>None\<close> and
  the zero duration, which is false in Python.
\<close>

definition hours :: "int \<Rightarrow> int" where
  "hours n = n * 3600000000"

definition Cache_init :: "int option \<Rightarrow> ('k, 'o) cache" where
  "Cache_init threshold =
     \<lparr>eviction_threshold =
        (case threshold of
           None \<Rightarrow> hours 4
         | Some d \<Rightarrow> if d = 0 then hours 4 else d),
      inventory = []\<rparr>"

definition put :: "('k, 'o) cache \<Rightarrow> 'k \<Rightarrow> 'o \<Rightarrow> int \<Rightarrow> ('k, 'o) cache" where
  "put c key obj now =
     c\<lparr>inventory := AList.update key (Item_init obj now) (inventory c)\<rparr>"

definition purge ::
  "('k, 'o) cache \<Rightarrow> 'k \<Rightarrow> (error + 'o pyvalue) \<times> ('k, 'o) cache" where
  "purge c key =
     (case map_of (inventory c) key of
        None \<Rightarrow> (Inl KeyError, c)
      | Some it \<Rightarrow> (Inr (ItemRef it), c\<lparr>inventory := AList.delete key (inventory c)\<rparr>))"

definition contains :: "('k, 'o) cache \<Rightarrow> 'k \<Rightarrow> bool" where
  "contains c key \<longleftrightarrow> map_of (inventory c) key \<noteq> None"

text \<open>
  The loop of \<^verbatim>\<open>evict\<close>. \<open>used\<close> is the size the iterator recorded, the list is what
  the iterator has still to yield, \<open>c\<close> is the live cache. Each step first compares the
  live size with \<open>used\<close>; the loop body follows the source line by line. An exception
  leaves the cache as it was when raised. The call of \<^verbatim>\<open>log.debug\<close> after the loop
  reads three lengths and changes nothing; it is left out.
\<close>

fun evict_loop ::
  "('o \<Rightarrow> int) \<Rightarrow> int \<Rightarrow> nat \<Rightarrow> ('k \<times> 'o item) list \<Rightarrow> ('k, 'o) cache \<Rightarrow>
   'o pyvalue list \<Rightarrow> 'o pyvalue list \<Rightarrow>
   (error + 'o pyvalue list \<times> 'o pyvalue list) \<times> ('k, 'o) cache" where
  "evict_loop getrefcount now used [] c busy_list evicted =
     (if length (inventory c) \<noteq> used then (Inl RuntimeError, c)
      else (Inr (busy_list, evicted), c))"
| "evict_loop getrefcount now used ((key, it) # rest) c busy_list evicted =
     (if length (inventory c) \<noteq> used then (Inl RuntimeError, c)
      else
        let duration = now - last_requested it in
        if busy getrefcount it then
          evict_loop getrefcount now used rest c (busy_list @ [Obj (object it)]) evicted
        else if duration < eviction_threshold c then
          evict_loop getrefcount now used rest c busy_list evicted
        else
          (case purge c key of
             (Inl e, c') \<Rightarrow> (Inl e, c')
           | (Inr _, c') \<Rightarrow>
               evict_loop getrefcount now used rest c' busy_list (evicted @ [Obj (object it)])))"

definition evict ::
  "('o \<Rightarrow> int) \<Rightarrow> ('k, 'o) cache \<Rightarrow> int \<Rightarrow> (error + 'o pyvalue list) \<times> ('k, 'o) cache" where
  "evict getrefcount c now =
     (case evict_loop getrefcount now (length (inventory c)) (inventory c) c [] [] of
        (Inl e, c') \<Rightarrow> (Inl e, c')
      | (Inr (busy_list, evicted), c') \<Rightarrow> (Inr evicted, c'))"

text \<open>
  \<^verbatim>\<open>get\<close> reads the clock twice: in \<^verbatim>\<open>item.touch()\<close> and at the start of the
  sweep. The item is mutated in place, so its key keeps its position in the inventory.
\<close>

definition get ::
  "('o \<Rightarrow> int) \<Rightarrow> ('k, 'o) cache \<Rightarrow> 'k \<Rightarrow> int \<Rightarrow> int \<Rightarrow>
   (error + 'o pyvalue) \<times> ('k, 'o) cache" where
  "get getrefcount c key now_touch now_evict =
     (case map_of (inventory c) key of
        None \<Rightarrow> (Inl LookupError, c)
      | Some it \<Rightarrow>
          let it' = touch now_touch it;
              c1 = c\<lparr>inventory := AList.update key it' (inventory c)\<rparr>
          in (case evict getrefcount c1 now_evict of
                (Inl e, c2) \<Rightarrow> (Inl e, c2)
              | (Inr _, c2) \<Rightarrow> (Inr (Obj (object it')), c2)))"

text \<open>
  The test of the loop on one item, for the statements below: the item is purged when
  neither \<^verbatim>\<open>continue\<close> is taken.
\<close>

definition evictable :: "('o \<Rightarrow> int) \<Rightarrow> int \<Rightarrow> int \<Rightarrow> 'o item \<Rightarrow> bool" where
  "evictable getrefcount threshold now it \<longleftrightarrow>
     \<not> busy getrefcount it \<and> \<not> (now - last_requested it < threshold)"

section \<open>The download context\<close>

text \<open>
  A \<^verbatim>\<open>Context\<close> keeps its properties in the instance dictionary
  \<^verbatim>\<open>self.__dict__\<close>. The values the model distinguishes are the \<^verbatim>\<open>RLock\<close> that
  \<^verbatim>\<open>__init__\<close> creates (a reference: the lock's hold count is the field \<open>held\<close> of
  the context), a \<^verbatim>\<open>Cache\<close>, a value of the caller (plain data: not a lock, a
  context manager, a class or a dictionary) and what the class itself supplies for a
  name (the module name, the docstring, a bound method, an inherited attribute).

  \<open>writes\<close> is not a field of the program. It is the history of the stores into
  \<^verbatim>\<open>self.__dict__\<close>, each with the hold count of the mutex at the moment of the
  store (0: the mutex is not held), kept so that statements about how a store happens
  can be made.
\<close>

datatype ('k, 'o, 'v) pyobj =
  RLock | CacheObj "('k, 'o) cache" | Data 'v | ClassAttr string

record ('k, 'o, 'v) Context =
  dict :: "(string \<times> ('k, 'o, 'v) pyobj) list"
  held :: nat
  writes :: "(string \<times> nat) list"

text \<open>
  \<^verbatim>\<open>__init__\<close> stores through \<^verbatim>\<open>self.__dict__\<close> directly:
  \<^verbatim>\<open>update(properties)\<close>, then the two reserved entries, which replace a property
  of the caller with the same name.
\<close>

definition Context_init ::
  "(string \<times> ('k, 'o, 'v) pyobj) list \<Rightarrow> ('k, 'o, 'v) Context" where
  "Context_init properties =
     (let d0 = fold (\<lambda>p. AList.update (fst p) (snd p)) properties [];
          d1 = AList.update ''MUTEX'' RLock d0;
          d2 = AList.update ''cache'' (CacheObj (Cache_init None)) d1
      in \<lparr>dict = d2, held = 0,
          writes = map (\<lambda>p. (fst p, 0)) properties @ [(''MUTEX'', 0), (''cache'', 0)]\<rparr>)"

text \<open>The property \<^verbatim>\<open>_mutex\<close>: \<^verbatim>\<open>self.__dict__['MUTEX']\<close>.\<close>

definition mutex :: "('k, 'o, 'v) Context \<Rightarrow> error + ('k, 'o, 'v) pyobj" where
  "mutex ctx =
     (case map_of (dict ctx) ''MUTEX'' of
        None \<Rightarrow> Inl KeyError
      | Some m \<Rightarrow> Inr m)"

text \<open>
  \<^verbatim>\<open>super().__setattr__(key, value)\<close> is \<^verbatim>\<open>object.__setattr__\<close>: a data
  descriptor of the class takes the assignment, any other name is stored in the
  instance dictionary. \<^verbatim>\<open>_mutex\<close> is a property without a setter and
  \<^verbatim>\<open>__weakref__\<close> is read-only (\<^verbatim>\<open>AttributeError\<close>); \<^verbatim>\<open>__class__\<close> and
  \<^verbatim>\<open>__dict__\<close> accept a class and a dictionary only (\<^verbatim>\<open>TypeError\<close> for the
  values of the model).
\<close>

definition object_setattr ::
  "('k, 'o, 'v) Context \<Rightarrow> string \<Rightarrow> ('k, 'o, 'v) pyobj \<Rightarrow>
   (error + unit) \<times> ('k, 'o, 'v) Context" where
  "object_setattr ctx key val =
     (if key = ''_mutex'' \<or> key = ''__weakref__'' then (Inl AttributeError, ctx)
      else if key = ''__class__'' \<or> key = ''__dict__'' then (Inl TypeError, ctx)
      else (Inr (),
            ctx\<lparr>dict := AList.update key val (dict ctx),
                writes := writes ctx @ [(key, held ctx)]\<rparr>))"

text \<open>
  \<^verbatim>\<open>__setattr__\<close>: \<^verbatim>\<open>with self._mutex:\<close> acquires the lock, the body stores, and
  the lock is released on every way out of the block. A \<^verbatim>\<open>MUTEX\<close> entry that is no
  lock has no \<^verbatim>\<open>__enter__\<close> (\<^verbatim>\<open>AttributeError\<close>; \<^verbatim>\<open>TypeError\<close> from
  Python 3.11 on).
\<close>

definition Context_setattr ::
  "('k, 'o, 'v) Context \<Rightarrow> string \<Rightarrow> ('k, 'o, 'v) pyobj \<Rightarrow>
   (error + unit) \<times> ('k, 'o, 'v) Context" where
  "Context_setattr ctx key val =
     (case mutex ctx of
        Inl e \<Rightarrow> (Inl e, ctx)
      | Inr RLock \<Rightarrow>
          (case object_setattr (ctx\<lparr>held := Suc (held ctx)\<rparr>) key val of
             (r, ctx') \<Rightarrow> (r, ctx'\<lparr>held := held ctx' - 1\<rparr>))
      | Inr _ \<Rightarrow> (Inl AttributeError, ctx))"

text \<open>
  \<^verbatim>\<open>__enter__\<close> and \<^verbatim>\<open>__exit__\<close>: \<^verbatim>\<open>acquire()\<close> and \<^verbatim>\<open>release()\<close> of the
  mutex. Releasing a lock that is not held raises \<^verbatim>\<open>RuntimeError\<close>.
\<close>

definition Context_enter ::
  "('k, 'o, 'v) Context \<Rightarrow> (error + unit) \<times> ('k, 'o, 'v) Context" where
  "Context_enter ctx =
     (case mutex ctx of
        Inl e \<Rightarrow> (Inl e, ctx)
      | Inr RLock \<Rightarrow> (Inr (), ctx\<lparr>held := Suc (held ctx)\<rparr>)
      | Inr _ \<Rightarrow> (Inl AttributeError, ctx))"

definition Context_exit ::
  "('k, 'o, 'v) Context \<Rightarrow> (error + unit) \<times> ('k, 'o, 'v) Context" where
  "Context_exit ctx =
     (case mutex ctx of
        Inl e \<Rightarrow> (Inl e, ctx)
      | Inr RLock \<Rightarrow>
          (if held ctx = 0 then (Inl RuntimeError, ctx)
           else (Inr (), ctx\<lparr>held := held ctx - 1\<rparr>))
      | Inr _ \<Rightarrow> (Inl AttributeError, ctx))"

text \<open>
  Reading \<^verbatim>\<open>context.name\<close>. The class defines no \<^verbatim>\<open>__getattr__\<close>, so the
  default lookup applies: a data descriptor of the class first (\<^verbatim>\<open>_mutex\<close>, and
  the \<^verbatim>\<open>__class__\<close>, \<^verbatim>\<open>__dict__\<close> and \<^verbatim>\<open>__weakref__\<close> every such instance
  has), then the instance dictionary, then the other names that the class resolves.
  Otherwise \<^verbatim>\<open>AttributeError\<close>.

  The other names are of two kinds. \<open>Context_namespace\<close> lists what the class
  statement of the source stores in the class besides \<^verbatim>\<open>_mutex\<close>,
  \<^verbatim>\<open>__dict__\<close> and \<^verbatim>\<open>__weakref__\<close>: the module name (\<^verbatim>\<open>__module__\<close>), the
  docstring (\<^verbatim>\<open>__doc__\<close>) and the four methods. The first argument of the lookup,
  \<open>type_attrs\<close>, is a table of the running interpreter: every further name that
  \<^verbatim>\<open>type(context)\<close> resolves, that is the attributes of \<^verbatim>\<open>object\<close> and any
  entry the interpreter's class statement adds on its own (\<^verbatim>\<open>__firstlineno__\<close> and
  \<^verbatim>\<open>__static_attributes__\<close> from Python 3.13 on).
\<close>

definition Context_namespace :: "string list" where
  "Context_namespace =
     [''__module__'', ''__doc__'', ''__init__'', ''__setattr__'', ''__enter__'', ''__exit__'']"

definition Context_getattr ::
  "string list \<Rightarrow> ('k, 'o, 'v) Context \<Rightarrow> string \<Rightarrow> error + ('k, 'o, 'v) pyobj" where
  "Context_getattr type_attrs ctx name =
     (if name = ''_mutex'' then mutex ctx
      else if name \<in> set [''__class__'', ''__dict__'', ''__weakref__''] then
        Inr (ClassAttr name)
      else
        (case map_of (dict ctx) name of
           Some v \<Rightarrow> Inr v
         | None \<Rightarrow>
             if name \<in> set Context_namespace \<or> name \<in> set type_attrs then
               Inr (ClassAttr name)
             else Inl AttributeError))"

text \<open>
  A run of assignments \<^verbatim>\<open>context.key = value\<close>, the caller going on after one
  that raises.
\<close>

fun setattrs ::
  "('k, 'o, 'v) Context \<Rightarrow> (string \<times> ('k, 'o, 'v) pyobj) list \<Rightarrow> ('k, 'o, 'v) Context" where
  "setattrs ctx [] = ctx"
| "setattrs ctx ((key, val) # rest) = setattrs (snd (Context_setattr ctx key val)) rest"

text \<open>A store made while the mutex was held, and a context all of whose stores were.\<close>

definition write_locked :: "string \<times> nat \<Rightarrow> bool" where
  "write_locked w \<longleftrightarrow> snd w > 0"

definition all_writes_locked :: "('k, 'o, 'v) Context \<Rightarrow> bool" where
  "all_writes_locked ctx \<longleftrightarrow> list_all write_locked (writes ctx)"

section \<open>Example inputs\<close>

text \<open>
  Two states of the interpreter's reference counts over objects named by strings. In
  the first every cached object is referenced by its item and by the argument of
  \<^verbatim>\<open>getrefcount\<close> only; in the second a caller also holds the object
  \<open>''session''\<close>.
\<close>

definition nobody_holds :: "string \<Rightarrow> int" where
  "nobody_holds obj = 2"

definition session_held :: "string \<Rightarrow> int" where
  "session_held obj = (if obj = ''session'' then 3 else 2)"

text \<open>
  A table for the lookup on a context: the names of \<^verbatim>\<open>dir(object)\<close>, as Python
  3.11 and 3.12 list them.
\<close>

definition object_attrs :: "string list" where
  "object_attrs =
     [''__class__'', ''__delattr__'', ''__dir__'', ''__doc__'', ''__eq__'', ''__format__'',
      ''__ge__'', ''__getattribute__'', ''__getstate__'', ''__gt__'', ''__hash__'',
      ''__init__'', ''__init_subclass__'', ''__le__'', ''__lt__'', ''__ne__'', ''__new__'',
      ''__reduce__'', ''__reduce_ex__'', ''__repr__'', ''__setattr__'', ''__sizeof__'',
      ''__str__'', ''__subclasshook__'']"

section \<open>The sweep\<close>

lemma delete_present_shorter:
  "map_of al k \<noteq> None \<Longrightarrow> length (AList.delete k al) < length al"
  by (induction al) (auto simp: less_Suc_eq_le AList.delete_eq intro: le_less_trans)

text \<open>Once the size differs from the recorded one, the next step of the iterator raises.\<close>

lemma evict_loop_size_changed:
  "length (inventory c) \<noteq> used \<Longrightarrow>
   evict_loop rc now used rest c b e = (Inl RuntimeError, c)"
  by (cases rest) auto

text \<open>
  What the loop computes from a state in which the size is still the recorded one: with
  no evictable entry ahead it ends normally and leaves the cache alone; otherwise it
  purges the first evictable entry and the following step raises.
\<close>

lemma evict_loop_char:
  "length (inventory c) = used \<Longrightarrow>
   \<forall>x \<in> set rest. map_of (inventory c) (fst x) \<noteq> None \<Longrightarrow>
   evict_loop rc now used rest c b e =
     (case find (\<lambda>x. evictable rc (eviction_threshold c) now (snd x)) rest of
        None \<Rightarrow>
          (Inr (b @ map (\<lambda>x. Obj (object (snd x))) (filter (\<lambda>x. busy rc (snd x)) rest), e), c)
      | Some x \<Rightarrow> (Inl RuntimeError, c\<lparr>inventory := AList.delete (fst x) (inventory c)\<rparr>))"
proof (induction rest arbitrary: b e)
  case Nil
  then show ?case by simp
next
  case (Cons x rest)
  obtain key it where x: "x = (key, it)" by (cases x)
  from Cons.prems have present: "map_of (inventory c) key \<noteq> None" by (simp add: x)
  from Cons.prems have rest: "\<forall>x \<in> set rest. map_of (inventory c) (fst x) \<noteq> None" by simp
  show ?case
  proof (cases "evictable rc (eviction_threshold c) now it")
    case False
    show ?thesis
    proof (cases "busy rc it")
      case True
      then show ?thesis
        using Cons.IH [OF Cons.prems(1) rest, of "b @ [Obj (object it)]" e] Cons.prems(1)
        by (simp add: x evictable_def Let_def split: option.splits)
    next
      case nb: False
      with False have "now - last_requested it < eviction_threshold c"
        by (simp add: evictable_def)
      with nb show ?thesis
        using Cons.IH [OF Cons.prems(1) rest, of b e] Cons.prems(1)
        by (simp add: x evictable_def Let_def split: option.splits)
    qed
  next
    case True
    from present obtain it' where it': "map_of (inventory c) key = Some it'" by auto
    let ?c' = "c\<lparr>inventory := AList.delete key (inventory c)\<rparr>"
    have "length (inventory ?c') \<noteq> used"
      using delete_present_shorter [OF present] Cons.prems(1) by simp
    then have "evict_loop rc now used rest ?c' b (e @ [Obj (object it)]) = (Inl RuntimeError, ?c')"
      by (rule evict_loop_size_changed)
    then show ?thesis
      using True Cons.prems(1) it'
      by (simp add: x evictable_def Let_def purge_def split: option.splits)
  qed
qed

lemma evict_char:
  "evict rc c now =
     (case find (\<lambda>x. evictable rc (eviction_threshold c) now (snd x)) (inventory c) of
        None \<Rightarrow> (Inr [], c)
      | Some x \<Rightarrow> (Inl RuntimeError, c\<lparr>inventory := AList.delete (fst x) (inventory c)\<rparr>))"
proof -
  have "\<forall>x \<in> set (inventory c). map_of (inventory c) (fst x) \<noteq> None"
    by (auto simp: map_of_eq_None_iff)
  then show ?thesis
    unfolding evict_def
    by (simp add: evict_loop_char split: option.splits)
qed

lemma find_first:
  "\<forall>x \<in> set pre. \<not> P x \<Longrightarrow> P y \<Longrightarrow> find P (pre @ y # post) = Some y"
  by (induction pre) auto

text \<open>
  Claim C1. An item that is busy when \<^verbatim>\<open>evict()\<close> sweeps is still in the inventory,
  unchanged, when the sweep is over, however it ends and however long the item has been
  idle; and when the sweep returns a list, the item's object is not in it.
\<close>

theorem busy_item_survives_evict:
  assumes keys: "distinct (map fst (inventory c))"
      and item: "map_of (inventory c) key = Some it"
      and busy: "busy getrefcount it"
  shows "map_of (inventory (snd (evict getrefcount c now))) key = Some it \<and>
         (\<forall>evicted. fst (evict getrefcount c now) = Inr evicted \<longrightarrow>
            Obj (object it) \<notin> set evicted)"
proof (cases "find (\<lambda>x. evictable getrefcount (eviction_threshold c) now (snd x)) (inventory c)")
  case None
  then show ?thesis using item by (simp add: evict_char)
next
  case (Some x)
  then have mem: "x \<in> set (inventory c)"
    and ev: "evictable getrefcount (eviction_threshold c) now (snd x)"
    by (auto simp: find_Some_iff)
  have "map_of (inventory c) (fst x) = Some (snd x)"
    using map_of_eq_Some_iff [OF keys, of "fst x" "snd x"] mem by simp
  with item busy ev have "fst x \<noteq> key"
    by (auto simp: evictable_def)
  with Some item show ?thesis
    by (simp add: evict_char delete_conv')
qed

text \<open>
  The witness: a session held by a caller and idle for ten times the threshold, beside
  a token nobody holds.
\<close>

theorem busy_item_survives_evict_witness:
  "distinct (map fst (inventory
     (put (put (Cache_init None) ''a'' ''session'' 0) ''b'' ''token'' 0))) \<and>
   map_of (inventory (put (put (Cache_init None) ''a'' ''session'' 0) ''b'' ''token'' 0)) ''a''
     = Some \<lparr>last_requested = 0, object = ''session''\<rparr> \<and>
   busy session_held \<lparr>last_requested = 0, object = ''session''\<rparr> \<and>
   hours 40 - last_requested \<lparr>last_requested = 0, object = ''session''\<rparr> = 10 * hours 4 \<and>
   map_of (inventory (snd (evict session_held
      (put (put (Cache_init None) ''a'' ''session'' 0) ''b'' ''token'' 0) (hours 40)))) ''a''
     = Some \<lparr>last_requested = 0, object = ''session''\<rparr>"
  using busy_item_survives_evict
    [of "put (put (Cache_init None) ''a'' ''session'' 0) ''b'' ''token'' 0"
      "''a''" "\<lparr>last_requested = 0, object = ''session''\<rparr>" session_held "hours 40"]
  by (simp add: put_def Cache_init_def Item_init_def busy_def ref_count_def
      session_held_def hours_def)

text \<open>
  Claim C2. The claim asks that every idle, unheld item is removed by one sweep and is
  returned once. The code purges the first such item and the iterator's next step
  raises: with two items idle for five hours under the default threshold, the first is
  gone, the second is still cached and no list is returned.
\<close>

theorem evict_two_stale_items_raises:
  "evict nobody_holds (put (put (Cache_init None) ''a'' ''s1'' 0) ''b'' ''s2'' 0) (hours 5)
     = (Inl RuntimeError,
        \<lparr>eviction_threshold = hours 4,
         inventory = [(''b'', \<lparr>last_requested = 0, object = ''s2''\<rparr>)]\<rparr>)"
  by (simp add: put_def Cache_init_def Item_init_def busy_def ref_count_def nobody_holds_def
      hours_def evict_def purge_def Let_def)

text \<open>
  Claim C3, as the code has it. Take an item nobody holds that the sweep reaches: every
  entry before it in the inventory is busy or has been idle for less than the
  threshold. After \<^verbatim>\<open>evict()\<close> the item is still cached exactly when its idle
  duration is less than the threshold; at a duration equal to the threshold, and at any
  longer one, it has been purged.
\<close>

theorem evict_threshold_rule:
  assumes keys: "distinct (map fst (inventory c))"
      and pos: "inventory c = pre @ (key, it) # post"
      and skipped: "\<forall>x \<in> set pre. busy getrefcount (snd x) \<or>
                      now - last_requested (snd x) < eviction_threshold c"
      and idle: "\<not> busy getrefcount it"
  shows "contains (snd (evict getrefcount c now)) key \<longleftrightarrow>
           now - last_requested it < eviction_threshold c"
proof (cases "now - last_requested it < eviction_threshold c")
  case True
  have item: "map_of (inventory c) key = Some it"
    using map_of_eq_Some_iff [OF keys, of key it] pos by simp
  show ?thesis
  proof (cases "find (\<lambda>x. evictable getrefcount (eviction_threshold c) now (snd x)) (inventory c)")
    case None
    then show ?thesis using item True by (simp add: evict_char contains_def)
  next
    case (Some x)
    then have mem: "x \<in> set (inventory c)"
      and ev: "evictable getrefcount (eviction_threshold c) now (snd x)"
      by (auto simp: find_Some_iff)
    have "map_of (inventory c) (fst x) = Some (snd x)"
      using map_of_eq_Some_iff [OF keys, of "fst x" "snd x"] mem by simp
    with item True ev have "fst x \<noteq> key"
      by (auto simp: evictable_def)
    with Some item True show ?thesis
      by (simp add: evict_char delete_conv' contains_def)
  qed
next
  case False
  with idle have "evictable getrefcount (eviction_threshold c) now (snd (key, it))"
    by (simp add: evictable_def)
  moreover from skipped
  have "\<forall>x \<in> set pre. \<not> evictable getrefcount (eviction_threshold c) now (snd x)"
    by (auto simp: evictable_def)
  ultimately
  have "find (\<lambda>x. evictable getrefcount (eviction_threshold c) now (snd x)) (inventory c)
          = Some (key, it)"
    unfolding pos by (intro find_first)
  with False show ?thesis
    by (simp add: evict_char contains_def delete_conv')
qed

text \<open>
  The witness: a fresh entry first, then an entry idle for exactly the threshold, which
  the sweep removes.
\<close>

theorem evict_threshold_rule_witness:
  "distinct (map fst (inventory
     (put (put (Cache_init None) ''a'' ''s1'' (hours 2)) ''b'' ''s2'' 0))) \<and>
   inventory (put (put (Cache_init None) ''a'' ''s1'' (hours 2)) ''b'' ''s2'' 0)
     = [(''a'', Item_init ''s1'' (hours 2))] @ (''b'', Item_init ''s2'' 0) # [] \<and>
   \<not> busy nobody_holds (Item_init ''s2'' 0) \<and>
   hours 4 - last_requested (Item_init ''s2'' 0) = hours 4 \<and>
   \<not> contains (snd (evict nobody_holds
       (put (put (Cache_init None) ''a'' ''s1'' (hours 2)) ''b'' ''s2'' 0) (hours 4))) ''b''"
  using evict_threshold_rule
    [of "put (put (Cache_init None) ''a'' ''s1'' (hours 2)) ''b'' ''s2'' 0"
      "[(''a'', Item_init ''s1'' (hours 2))]" "''b''" "Item_init ''s2'' 0" "[]"
      nobody_holds "hours 4"]
  by (simp add: put_def Cache_init_def Item_init_def busy_def ref_count_def
      nobody_holds_def hours_def)

text \<open>
  Against claim C3 as stated: one item nobody holds, idle for exactly the default
  threshold of four hours, is cached before the sweep and is not cached after it.
\<close>

theorem evict_at_threshold_counterexample:
  "hours 4 - last_requested (Item_init ''s'' 0)
     = eviction_threshold (put (Cache_init None) ''a'' ''s'' 0) \<and>
   \<not> busy nobody_holds (Item_init ''s'' 0) \<and>
   contains (put (Cache_init None) ''a'' ''s'' 0) ''a'' \<and>
   \<not> contains (snd (evict nobody_holds (put (Cache_init None) ''a'' ''s'' 0) (hours 4))) ''a''"
  by (simp add: put_def Cache_init_def Item_init_def busy_def ref_count_def nobody_holds_def
      hours_def evict_def purge_def Let_def contains_def)

text \<open>
  Claim C4. The claim asks that the sweep walks a snapshot of the keys, so that a purge
  during the sweep raises nothing. The code walks \<^verbatim>\<open>self._inventory.items()\<close>, the
  live dictionary: with one evictable entry beside a fresh one, \<^verbatim>\<open>evict()\<close> ends in
  \<^verbatim>\<open>RuntimeError\<close>.
\<close>

theorem evict_beside_fresh_entry_raises:
  "fst (evict nobody_holds
         (put (put (Cache_init None) ''old'' ''s1'' 0) ''new'' ''s2'' (hours 5)) (hours 5))
     = Inl RuntimeError"
  by (simp add: put_def Cache_init_def Item_init_def busy_def ref_count_def nobody_holds_def
      hours_def evict_def purge_def Let_def)

section \<open>Lookup\<close>

text \<open>
  Claim C6. The claim asks that \<^verbatim>\<open>get(k)\<close> right after \<^verbatim>\<open>put(k, v)\<close> succeeds
  with \<open>v\<close>. Beside an entry that the sweep inside \<^verbatim>\<open>get\<close> evicts, the call ends in
  the sweep's \<^verbatim>\<open>RuntimeError\<close> instead.
\<close>

theorem get_after_put_raises_beside_stale_entry:
  "fst (get nobody_holds
         (put (put (Cache_init None) ''old'' ''s1'' 0) ''k'' ''v'' (hours 5)) ''k''
         (hours 5) (hours 5))
     = Inl RuntimeError"
  by (simp add: put_def Cache_init_def Item_init_def busy_def ref_count_def nobody_holds_def
      hours_def evict_def purge_def Let_def get_def touch_def)

text \<open>
  Claim C7. \<^verbatim>\<open>get\<close> with a key that is not cached raises \<^verbatim>\<open>LookupError\<close> and
  leaves the cache as it was: nothing is touched, no sweep runs, no value is returned.
\<close>

theorem get_absent_raises_LookupError:
  "\<not> contains c key \<Longrightarrow>
   get getrefcount c key now_touch now_evict = (Inl LookupError, c) \<and>
   is_LookupError LookupError"
  by (simp add: get_def contains_def)

theorem get_absent_raises_LookupError_witness:
  "\<not> contains (put (Cache_init None) ''a'' ''session'' 0) ''b'' \<and>
   get session_held (put (Cache_init None) ''a'' ''session'' 0) ''b'' 1 2
     = (Inl LookupError, put (Cache_init None) ''a'' ''session'' 0)"
  using get_absent_raises_LookupError
    [of "put (Cache_init None) ''a'' ''session'' 0" "''b''" session_held 1 2]
  by (simp add: put_def Cache_init_def contains_def)

lemma evict_never_LookupError: "fst (evict getrefcount c now) \<noteq> Inl LookupError"
  by (simp add: evict_char split: option.splits)

text \<open>
  Claim C10. Whenever \<^verbatim>\<open>get\<close> ends in \<^verbatim>\<open>LookupError\<close>, the key was not cached
  and the cache is exactly what it was before the call: no timestamp has moved and no
  entry has been removed.
\<close>

theorem failed_get_leaves_cache_unchanged:
  assumes "fst (get getrefcount c key now_touch now_evict) = Inl LookupError"
  shows "snd (get getrefcount c key now_touch now_evict) = c \<and> \<not> contains c key"
proof (cases "map_of (inventory c) key")
  case None
  then show ?thesis by (simp add: get_def contains_def)
next
  case (Some it)
  let ?c1 = "c\<lparr>inventory := AList.update key (touch now_touch it) (inventory c)\<rparr>"
  have "fst (get getrefcount c key now_touch now_evict) \<noteq> Inl LookupError"
    using Some evict_never_LookupError [of getrefcount ?c1 now_evict]
    by (auto simp: get_def Let_def split: prod.splits sum.splits)
  with assms show ?thesis by simp
qed

text \<open>
  The witness: the failed lookup happens while an entry old enough to be evicted is
  cached; the entry is still there afterwards.
\<close>

theorem failed_get_leaves_cache_unchanged_witness:
  "fst (get nobody_holds (put (Cache_init None) ''old'' ''s1'' 0) ''k'' (hours 5) (hours 5))
     = Inl LookupError \<and>
   snd (get nobody_holds (put (Cache_init None) ''old'' ''s1'' 0) ''k'' (hours 5) (hours 5))
     = put (Cache_init None) ''old'' ''s1'' 0 \<and>
   inventory (snd (get nobody_holds (put (Cache_init None) ''old'' ''s1'' 0) ''k''
       (hours 5) (hours 5)))
     = [(''old'', \<lparr>last_requested = 0, object = ''s1''\<rparr>)]"
  using failed_get_leaves_cache_unchanged
    [of nobody_holds "put (Cache_init None) ''old'' ''s1'' 0" "''k''" "hours 5" "hours 5"]
  by (simp add: get_def put_def Cache_init_def Item_init_def)

section \<open>Purging\<close>

text \<open>
  Claim C5, as the code has it. \<^verbatim>\<open>purge(key)\<close> returns what
  \<^verbatim>\<open>self._inventory.pop(key)\<close> yields: for a cached key the \<^verbatim>\<open>Item\<close> stored under
  it, the entry being removed; for a key that is not cached \<^verbatim>\<open>KeyError\<close>, a
  \<^verbatim>\<open>LookupError\<close>, the cache staying as it was. Right after \<^verbatim>\<open>put(key, obj)\<close> the
  item returned is the one that wraps \<open>obj\<close>.
\<close>

theorem purge_returns_entry:
  "(\<forall>it. map_of (inventory c) key = Some it \<longrightarrow>
      purge c key = (Inr (ItemRef it), c\<lparr>inventory := AList.delete key (inventory c)\<rparr>) \<and>
      \<not> contains (snd (purge c key)) key) \<and>
   (\<not> contains c key \<longrightarrow> purge c key = (Inl KeyError, c) \<and> is_LookupError KeyError) \<and>
   fst (purge (put c key obj now) key) = Inr (ItemRef \<lparr>last_requested = now, object = obj\<rparr>)"
  by (auto simp: purge_def contains_def put_def Item_init_def delete_conv' update_conv')

theorem purge_returns_entry_witness:
  "map_of (inventory (put (Cache_init None) ''k'' ''v'' 7)) ''k''
     = Some \<lparr>last_requested = 7, object = ''v''\<rparr> \<and>
   purge (put (Cache_init None) ''k'' ''v'' 7) ''k''
     = (Inr (ItemRef \<lparr>last_requested = 7, object = ''v''\<rparr>),
        (Cache_init None :: (string, string) cache)) \<and>
   \<not> contains (Cache_init None :: (string, string) cache) ''k'' \<and>
   purge (Cache_init None :: (string, string) cache) ''k'' = (Inl KeyError, Cache_init None)"
  using purge_returns_entry [of "put (Cache_init None) ''k'' ''v'' 7" "''k''" "''v''" 7]
    purge_returns_entry [of "Cache_init None :: (string, string) cache" "''k''" "''v''" 7]
  by (simp add: put_def Cache_init_def Item_init_def contains_def)

text \<open>
  Against claim C5 as stated: after \<^verbatim>\<open>put('k', 'v')\<close>, \<^verbatim>\<open>purge('k')\<close> does not
  return the object \<open>''v''\<close>; it returns the item around it.
\<close>

theorem purge_returns_payload_counterexample:
  "contains (put (Cache_init None) ''k'' ''v'' 0) ''k'' \<and>
   fst (purge (put (Cache_init None) ''k'' ''v'' 0) ''k'') \<noteq> Inr (Obj ''v'') \<and>
   fst (purge (put (Cache_init None) ''k'' ''v'' 0) ''k'')
     = Inr (ItemRef \<lparr>last_requested = 0, object = ''v''\<rparr>)"
  by (simp add: purge_def put_def Cache_init_def Item_init_def contains_def)

section \<open>The keys of the inventory stay distinct\<close>

lemma Cache_init_distinct: "distinct (map fst (inventory (Cache_init threshold)))"
  by (simp add: Cache_init_def)

lemma put_distinct:
  "distinct (map fst (inventory c)) \<Longrightarrow> distinct (map fst (inventory (put c key obj now)))"
  by (simp add: put_def distinct_update)

lemma purge_distinct:
  "distinct (map fst (inventory c)) \<Longrightarrow> distinct (map fst (inventory (snd (purge c key))))"
  by (simp add: purge_def distinct_delete split: option.splits)

lemma evict_distinct:
  "distinct (map fst (inventory c)) \<Longrightarrow>
   distinct (map fst (inventory (snd (evict getrefcount c now))))"
  by (simp add: evict_char distinct_delete split: option.splits)

lemma get_distinct:
  assumes "distinct (map fst (inventory c))"
  shows "distinct (map fst (inventory (snd (get getrefcount c key now_touch now_evict))))"
proof (cases "map_of (inventory c) key")
  case None
  with assms show ?thesis by (simp add: get_def)
next
  case (Some it)
  let ?c1 = "c\<lparr>inventory := AList.update key (touch now_touch it) (inventory c)\<rparr>"
  have "distinct (map fst (inventory ?c1))"
    using assms by (simp add: distinct_update)
  then have "distinct (map fst (inventory (snd (evict getrefcount ?c1 now_evict))))"
    by (rule evict_distinct)
  with Some show ?thesis
    by (auto simp: get_def Let_def split: prod.splits sum.splits)
qed

section \<open>Stores into a context\<close>

text \<open>
  Claim C8, as the code has it. An assignment \<^verbatim>\<open>context.key = value\<close> adds at most
  one store to the history, made while the mutex is held, and leaves the hold count as
  it found it. No store of \<^verbatim>\<open>__init__\<close> is made while the mutex is held: the
  properties of the caller, \<^verbatim>\<open>MUTEX\<close> and \<^verbatim>\<open>cache\<close> go into
  \<^verbatim>\<open>self.__dict__\<close> directly.
\<close>

theorem setattr_writes_under_mutex:
  "writes (snd (Context_setattr ctx key val)) =
     writes ctx @
       (if fst (Context_setattr ctx key val) = Inr () then [(key, Suc (held ctx))] else []) \<and>
   list_all write_locked
     (drop (length (writes ctx)) (writes (snd (Context_setattr ctx key val)))) \<and>
   held (snd (Context_setattr ctx key val)) = held ctx \<and>
   \<not> list_ex write_locked (writes (Context_init properties))"
  by (auto simp: Context_setattr_def object_setattr_def write_locked_def Context_init_def
      list_ex_iff split: sum.splits pyobj.splits)

text \<open>
  Against claim C8 as stated: the two reserved entries are stored by the constructor
  with the mutex not held.
\<close>

theorem construction_writes_counterexample:
  "\<not> all_writes_locked (Context_init [] :: (string, string, int) Context) \<and>
   writes (Context_init [] :: (string, string, int) Context) = [(''MUTEX'', 0), (''cache'', 0)]"
  by (simp add: all_writes_locked_def write_locked_def Context_init_def)

lemma enter_exit:
  "mutex ctx = Inr RLock \<Longrightarrow> Context_exit (snd (Context_enter ctx)) = (Inr (), ctx)"
  by (simp add: Context_enter_def Context_exit_def mutex_def split: option.splits)

section \<open>Reading a property\<close>

lemma keys_setattr:
  "fst ` set (dict (snd (Context_setattr ctx key val))) \<subseteq> insert key (fst ` set (dict ctx))"
  by (simp add: Context_setattr_def object_setattr_def dom_update subset_insertI
      split: sum.splits pyobj.splits)

lemma keys_setattrs:
  "fst ` set (dict (setattrs ctx assignments))
     \<subseteq> fst ` set (dict ctx) \<union> fst ` set assignments"
proof (induction assignments arbitrary: ctx)
  case Nil
  then show ?case by simp
next
  case (Cons a assignments)
  obtain key val where a: "a = (key, val)" by (cases a)
  have "fst ` set (dict (setattrs (snd (Context_setattr ctx key val)) assignments))
          \<subseteq> fst ` set (dict (snd (Context_setattr ctx key val))) \<union> fst ` set assignments"
    by (rule Cons.IH)
  also have "\<dots> \<subseteq> insert key (fst ` set (dict ctx)) \<union> fst ` set assignments"
    using keys_setattr [of ctx key val] by blast
  finally show ?case by (simp add: a)
qed

lemma keys_fold_update:
  "fst ` set (fold (\<lambda>p. AList.update (fst p) (snd p)) ps d) = fst ` set d \<union> fst ` set ps"
  by (induction ps arbitrary: d) (simp_all add: dom_update Un_assoc)

lemma keys_Context_init:
  "fst ` set (dict (Context_init properties)) = {''MUTEX'', ''cache''} \<union> fst ` set properties"
  by (simp add: Context_init_def Let_def dom_update keys_fold_update insert_commute)

text \<open>
  Claim C9, as the code has it. Take a context built from any properties and then
  assigned to any number of times. A name that is none of the properties, was never
  assigned, is not \<^verbatim>\<open>MUTEX\<close> or \<^verbatim>\<open>cache\<close>, and is not a name the class
  resolves (\<^verbatim>\<open>_mutex\<close>, \<^verbatim>\<open>__class__\<close>, \<^verbatim>\<open>__dict__\<close>, \<^verbatim>\<open>__weakref__\<close>,
  \<^verbatim>\<open>__module__\<close>, \<^verbatim>\<open>__doc__\<close>, a method, or any further name in the
  interpreter's table for the type) reads as \<^verbatim>\<open>AttributeError\<close>.
\<close>

theorem unset_attribute_raises:
  assumes "name \<notin> fst ` set properties"
      and "name \<notin> fst ` set assignments"
      and "name \<noteq> ''MUTEX''" and "name \<noteq> ''cache''"
      and "name \<noteq> ''_mutex''"
      and "name \<notin> set [''__class__'', ''__dict__'', ''__weakref__'']"
      and "name \<notin> set Context_namespace"
      and "name \<notin> set type_attrs"
  shows "Context_getattr type_attrs (setattrs (Context_init properties) assignments) name
           = Inl AttributeError"
proof -
  have "name \<notin> fst ` set (dict (setattrs (Context_init properties) assignments))"
    using keys_setattrs [of "Context_init properties" assignments] assms(1-4)
    by (auto simp: keys_Context_init)
  then have "map_of (dict (setattrs (Context_init properties) assignments)) name = None"
    by (simp add: map_of_eq_None_iff)
  with assms(5-8) show ?thesis
    by (simp add: Context_getattr_def)
qed

theorem unset_attribute_raises_witness:
  "Context_getattr object_attrs
     (setattrs (Context_init [(''url'', Data (1::int))] :: (string, string, int) Context)
        [(''token'', Data 2)]) ''session''
     = Inl AttributeError"
  using unset_attribute_raises
    [of "''session''"
      "[(''url'', Data (1::int))] :: (string \<times> (string, string, int) pyobj) list"
      "[(''token'', Data 2)]" object_attrs]
  by (simp add: Context_namespace_def object_attrs_def)

text \<open>
  The names the class statement stores are readable on a new context without ever
  being set, whatever the interpreter's table holds.
\<close>

lemma class_entries_readable:
  "Context_getattr type_attrs (Context_init [] :: (string, string, int) Context) ''__module__''
     = Inr (ClassAttr ''__module__'') \<and>
   Context_getattr type_attrs (Context_init [] :: (string, string, int) Context) ''__doc__''
     = Inr (ClassAttr ''__doc__'')"
  by (simp add: Context_getattr_def Context_init_def Context_namespace_def)

text \<open>
  Against claim C9 as stated: \<^verbatim>\<open>_mutex\<close> is never set, neither by the constructor
  (which stores \<^verbatim>\<open>MUTEX\<close> and \<^verbatim>\<open>cache\<close>) nor by an assignment, and reading it
  on a new context returns the lock.
\<close>

theorem unset_mutex_property_counterexample:
  "Context_getattr object_attrs (Context_init [] :: (string, string, int) Context) ''_mutex''
     = Inr RLock"
  by (simp add: Context_getattr_def mutex_def Context_init_def)

end
